theory Spec2Isabelle
  imports Main "HOL-Library.AList" "HOL-Library.Multiset"
begin

section \<open>Data model of \<^verbatim>\<open>policy.cc\<close>\<close>

text \<open>
  Modelled from the spec: the header \<^verbatim>\<open>policy.h\<close> (types \<^verbatim>\<open>Event\<close>,
  \<^verbatim>\<open>Event::Task\<close>, \<^verbatim>\<open>Action\<close>) is not part of the sources. The spec gives a task an
  identifier, an absolute deadline and a two-valued priority (high / normal); an event a
  type tag out of five, a timestamp and a task snapshot; a decision a pair of task ids.
  The fields carry the names \<^verbatim>\<open>policy.cc\<close> uses for them; the event's fields
  \<^verbatim>\<open>type\<close> and \<^verbatim>\<open>task\<close> are written \<open>etype\<close> and \<open>etask\<close>, so that they do not
  clash with the field \<open>task\<close> of the scheduler record.

  The C++ type \<^verbatim>\<open>int\<close> has 32 bits. Its values are modelled by \<open>int\<close>, and the
  subtractions of \<^verbatim>\<open>policy.cc\<close> by \<open>sub32\<close>, with the two's-complement wrap-around
  written out: \<open>wrap32\<close> brings a difference back into the range from \<open>- 2 ^ 31\<close> to
  \<open>2 ^ 31 - 1\<close>, as the compiled code does. The only other arithmetic, the decrement
  of a positive \<open>io_remaining\<close>, cannot leave the range.
\<close>

definition in_range32 :: "int \<Rightarrow> bool" where
  "in_range32 x \<longleftrightarrow> - (2 ^ 31) \<le> x \<and> x < 2 ^ 31"

definition wrap32 :: "int \<Rightarrow> int" where
  "wrap32 x = (x + 2 ^ 31) mod 2 ^ 32 - 2 ^ 31"

definition sub32 :: "int \<Rightarrow> int \<Rightarrow> int" where
  "sub32 a b = wrap32 (a - b)"

datatype Priority = kHigh | kLow

datatype EventType = kTimer | kTaskArrival | kTaskFinish | kIoRequest | kIoEnd

record Task =
  taskId :: int
  deadline :: int
  priority :: Priority

record Event =
  etype :: EventType
  time :: int
  etask :: Task

record Action =
  cpuTask :: int
  ioTask :: int

text \<open>\<^verbatim>\<open>struct TaskState\<close>, field by field.\<close>

record TaskState =
  task :: Task
  is_io_active :: bool
  remaining_time :: int
  slack_time :: int
  io_remaining :: int
  urgency_level :: int

text \<open>
  The global \<^verbatim>\<open>std::unordered_map<int, TaskState> task_states\<close> is threaded through the
  model as an association list. The order of the list stands for the iteration order of
  the hash table, which C++ leaves unspecified: every theorem below holds for every
  order. The table starts empty when the process starts.
\<close>

type_synonym table = "(int \<times> TaskState) list"

text \<open>
  \<^verbatim>\<open>task_states[k]\<close> read inside the comparators. On a missing key \<^verbatim>\<open>operator[]\<close>
  yields a value-initialised record (every number zero, the flag false); the comparators
  read only its integer fields. Lemma \<open>state_at_member\<close> below shows that under the
  table invariant the comparators never meet a missing key.
\<close>

definition default_state :: TaskState where
  "default_state =
     \<lparr>task = \<lparr>taskId = 0, deadline = 0, priority = kHigh\<rparr>, is_io_active = False,
      remaining_time = 0, slack_time = 0, io_remaining = 0, urgency_level = 0\<rparr>"

definition state_at :: "table \<Rightarrow> int \<Rightarrow> TaskState" where
  "state_at tbl k = (case map_of tbl k of Some s \<Rightarrow> s | None \<Rightarrow> default_state)"

section \<open>The comparators\<close>

definition compare_urgency :: "table \<Rightarrow> Task \<Rightarrow> Task \<Rightarrow> bool" where
  "compare_urgency tbl a b =
     (let urgency_a = urgency_level (state_at tbl (taskId a));
          urgency_b = urgency_level (state_at tbl (taskId b))
      in if urgency_a \<noteq> urgency_b then urgency_a > urgency_b
         else slack_time (state_at tbl (taskId a)) < slack_time (state_at tbl (taskId b)))"

definition compare_priority_urgency :: "table \<Rightarrow> Task \<Rightarrow> Task \<Rightarrow> bool" where
  "compare_priority_urgency tbl a b =
     (if priority a \<noteq> priority b then priority a = kHigh else compare_urgency tbl a b)"

text \<open>The lambda handed to the second \<^verbatim>\<open>std::sort\<close>.\<close>

definition compare_io :: "table \<Rightarrow> Task \<Rightarrow> Task \<Rightarrow> bool" where
  "compare_io tbl a b =
     (if priority a \<noteq> priority b then priority a = kHigh
      else io_remaining (state_at tbl (taskId a)) < io_remaining (state_at tbl (taskId b)))"

section \<open>Event application\<close>

text \<open>The body of the loop of \<^verbatim>\<open>update_task_states\<close>, for one record.\<close>

definition update_state :: "int \<Rightarrow> TaskState \<Rightarrow> TaskState" where
  "update_state current_time state =
     (if \<not> is_io_active state then
        let s1 = state\<lparr>slack_time :=
                   sub32 (sub32 (deadline (task state)) current_time) (remaining_time state)\<rparr>;
            s2 = (if slack_time s1 \<le> 0 then s1\<lparr>urgency_level := 2\<rparr>
                  else if slack_time s1 \<le> 5 then s1\<lparr>urgency_level := 1\<rparr>
                  else s1\<lparr>urgency_level := 0\<rparr>)
        in if priority (task s2) = kHigh then
             (if slack_time s2 \<le> 10 then s2\<lparr>urgency_level := max (urgency_level s2) 1\<rparr> else s2)
           else s2
      else state)"

definition update_task_states :: "int \<Rightarrow> table \<Rightarrow> table" where
  "update_task_states current_time tbl =
     map (\<lambda>(k, state). (k, update_state current_time state)) tbl"

text \<open>The body of the second loop of the \<^verbatim>\<open>kTimer\<close> case, for one record.\<close>

definition io_tick :: "TaskState \<Rightarrow> TaskState" where
  "io_tick state =
     (if is_io_active state \<and> io_remaining state > 0
      then state\<lparr>io_remaining := io_remaining state - 1\<rparr> else state)"

text \<open>The record an arrival stores.\<close>

definition arrival_state :: "Event \<Rightarrow> TaskState" where
  "arrival_state event =
     \<lparr>task = etask event, is_io_active = False,
      remaining_time = sub32 (deadline (etask event)) (time event),
      slack_time = sub32 (deadline (etask event)) (time event),
      io_remaining = 0, urgency_level = 0\<rparr>"

text \<open>One iteration of the event loop of \<^verbatim>\<open>policy\<close>: the \<^verbatim>\<open>switch\<close>.\<close>

definition apply_event :: "Event \<Rightarrow> table \<Rightarrow> table" where
  "apply_event event tbl =
     (case etype event of
        kTaskArrival \<Rightarrow> AList.update (taskId (etask event)) (arrival_state event) tbl
      | kTaskFinish \<Rightarrow> AList.delete (taskId (etask event)) tbl
      | kIoRequest \<Rightarrow>
          (if map_of tbl (taskId (etask event)) \<noteq> None
           then AList.map_entry (taskId (etask event))
                  (\<lambda>s. s\<lparr>is_io_active := True, io_remaining := 10\<rparr>) tbl
           else tbl)
      | kIoEnd \<Rightarrow>
          (if map_of tbl (taskId (etask event)) \<noteq> None
           then AList.map_entry (taskId (etask event))
                  (\<lambda>s. s\<lparr>is_io_active := False, io_remaining := 0\<rparr>) tbl
           else tbl)
      | kTimer \<Rightarrow>
          map (\<lambda>(k, state). (k, io_tick state)) (update_task_states (time event) tbl))"

text \<open>The whole event loop: the events in the order of the vector.\<close>

fun apply_events :: "Event list \<Rightarrow> table \<Rightarrow> table" where
  "apply_events [] tbl = tbl"
| "apply_events (event # events) tbl = apply_events events (apply_event event tbl)"

section \<open>Selection\<close>

text \<open>The two loops that collect the candidates.\<close>

definition ready_tasks :: "table \<Rightarrow> Task list" where
  "ready_tasks tbl = map (\<lambda>(k, state). task state) (filter (\<lambda>(k, state). \<not> is_io_active state) tbl)"

definition io_tasks :: "int \<Rightarrow> table \<Rightarrow> Task list" where
  "io_tasks current_cpu tbl =
     map (\<lambda>(k, state). task state)
       (filter (\<lambda>(k, state). is_io_active state \<and> k \<noteq> current_cpu) tbl)"

text \<open>
  \<^verbatim>\<open>v.empty() ? 0 : v[0].taskId\<close>, the way both selections read the sorted vector
  (the action's fields start at 0).
\<close>

definition first_id :: "Task list \<Rightarrow> int" where
  "first_id v = (case v of [] \<Rightarrow> 0 | t # _ \<Rightarrow> taskId t)"

text \<open>
  \<^verbatim>\<open>policy\<close>. The sorting routine is a parameter: \<^verbatim>\<open>std::sort\<close> is not stable and
  its algorithm is not fixed, so the order it gives to equivalent elements is
  unspecified. The result is the action together with the table the call leaves behind.
\<close>

definition policy_with ::
  "((Task \<Rightarrow> Task \<Rightarrow> bool) \<Rightarrow> Task list \<Rightarrow> Task list) \<Rightarrow>
     Event list \<Rightarrow> int \<Rightarrow> int \<Rightarrow> table \<Rightarrow> Action \<times> table" where
  "policy_with srt events current_cpu current_io tbl =
     (let tbl' = apply_events events tbl;
          cpu = first_id (srt (compare_priority_urgency tbl') (ready_tasks tbl'));
          io = (if current_io = 0
                then first_id (srt (compare_io tbl') (io_tasks current_cpu tbl'))
                else current_io)
      in (\<lparr>cpuTask = cpu, ioTask = io\<rparr>, tbl'))"

text \<open>
  What the C++ standard promises of \<^verbatim>\<open>std::sort\<close> for a comparator that is a strict
  weak ordering: the result is a permutation of the input in which no element is
  ordered before an earlier one.
\<close>

definition strict_weak :: "('a \<Rightarrow> 'a \<Rightarrow> bool) \<Rightarrow> bool" where
  "strict_weak cmp \<longleftrightarrow>
     (\<forall>a. \<not> cmp a a) \<and>
     (\<forall>a b c. cmp a b \<and> cmp b c \<longrightarrow> cmp a c) \<and>
     (\<forall>a b c. \<not> cmp a b \<and> \<not> cmp b a \<and> \<not> cmp b c \<and> \<not> cmp c b \<longrightarrow> \<not> cmp a c \<and> \<not> cmp c a)"

definition std_sort :: "((Task \<Rightarrow> Task \<Rightarrow> bool) \<Rightarrow> Task list \<Rightarrow> Task list) \<Rightarrow> bool" where
  "std_sort srt \<longleftrightarrow>
     (\<forall>cmp xs. strict_weak cmp \<longrightarrow>
        mset (srt cmp xs) = mset xs \<and> sorted_wrt (\<lambda>a b. \<not> cmp b a) (srt cmp xs))"

text \<open>
  One sorting routine that meets the contract, to run the model: insertion sort, an
  element going in front of the first one it is ordered before.
\<close>

fun insert_by :: "('a \<Rightarrow> 'a \<Rightarrow> bool) \<Rightarrow> 'a \<Rightarrow> 'a list \<Rightarrow> 'a list" where
  "insert_by cmp x [] = [x]"
| "insert_by cmp x (y # ys) = (if cmp x y then x # y # ys else y # insert_by cmp x ys)"

fun insertion_sort :: "('a \<Rightarrow> 'a \<Rightarrow> bool) \<Rightarrow> 'a list \<Rightarrow> 'a list" where
  "insertion_sort cmp [] = []"
| "insertion_sort cmp (x # xs) = insert_by cmp x (insertion_sort cmp xs)"

definition policy :: "Event list \<Rightarrow> int \<Rightarrow> int \<Rightarrow> table \<Rightarrow> Action \<times> table" where
  "policy = policy_with insertion_sort"

text \<open>
  The invariant of the table: one record per key, and the snapshot stored under a key
  carries that key as its id (an arrival stores \<^verbatim>\<open>event.task\<close> under
  \<^verbatim>\<open>event.task.taskId\<close>, and nothing else writes the snapshot).
\<close>

definition table_ok :: "table \<Rightarrow> bool" where
  "table_ok tbl \<longleftrightarrow> distinct (map fst tbl) \<and> list_all (\<lambda>(k, s). taskId (task s) = k) tbl"

section \<open>The orders as the specification words them\<close>

text \<open>
  High priority before normal; within equal priority the higher urgency level; within
  equal priority and urgency level the smaller slack time.
\<close>

definition cpu_before :: "TaskState \<Rightarrow> TaskState \<Rightarrow> bool" where
  "cpu_before r r' \<longleftrightarrow>
     (priority (task r) = kHigh \<and> priority (task r') = kLow) \<or>
     (priority (task r) = priority (task r') \<and>
        (urgency_level r > urgency_level r' \<or>
         (urgency_level r = urgency_level r' \<and> slack_time r < slack_time r')))"

text \<open>High priority before normal; within equal priority the smaller \<open>io_remaining\<close>.\<close>

definition io_before :: "TaskState \<Rightarrow> TaskState \<Rightarrow> bool" where
  "io_before r r' \<longleftrightarrow>
     (priority (task r) = kHigh \<and> priority (task r') = kLow) \<or>
     (priority (task r) = priority (task r') \<and> io_remaining r < io_remaining r')"

text \<open>
  The urgency level as the specification derives it from the slack time and the
  priority: the base tier, raised to at least 1 for a high-priority task with slack at
  most 10.
\<close>

definition base_tier :: "int \<Rightarrow> int" where
  "base_tier slack = (if slack \<le> 0 then 2 else if slack \<le> 5 then 1 else 0)"

definition urgency_of :: "int \<Rightarrow> Priority \<Rightarrow> int" where
  "urgency_of slack prio =
     (if prio = kHigh \<and> slack \<le> 10 then max (base_tier slack) 1 else base_tier slack)"

section \<open>The 32-bit subtraction\<close>

lemma wrap32_in_range: "in_range32 (wrap32 x)"
proof -
  have "0 \<le> (x + 2147483648) mod (4294967296 :: int)"
    "(x + 2147483648) mod (4294967296 :: int) < 4294967296"
    by simp_all
  then show ?thesis
    by (simp add: in_range32_def wrap32_def)
qed

lemma wrap32_id: "in_range32 x \<Longrightarrow> wrap32 x = x"
  unfolding in_range32_def wrap32_def by (simp add: mod_pos_pos_trivial)

lemma wrap32_sub_wrap32: "wrap32 (wrap32 x - y) = wrap32 (x - y)"
proof -
  have "(wrap32 x - y + 2 ^ 31) mod (2 ^ 32 :: int) =
        ((x + 2 ^ 31) mod 2 ^ 32 - y) mod 2 ^ 32"
    by (simp add: wrap32_def)
  also have "\<dots> = (x + 2 ^ 31 - y) mod 2 ^ 32"
    by (rule mod_diff_left_eq)
  also have "\<dots> = (x - y + 2 ^ 31) mod 2 ^ 32"
    by (simp add: algebra_simps)
  finally show ?thesis
    by (simp add: wrap32_def [of "wrap32 x - y"] wrap32_def [of "x - y"])
qed

lemma sub32_sub32: "sub32 (sub32 a b) c = wrap32 (a - b - c)"
  by (simp add: sub32_def wrap32_sub_wrap32)

lemma sub32_exact: "in_range32 (a - b) \<Longrightarrow> sub32 a b = a - b"
  by (simp add: sub32_def wrap32_id)

section \<open>The comparators are strict weak orderings\<close>

lemma strict_weak_cpu: "strict_weak (compare_priority_urgency tbl)"
proof -
  let ?c = "compare_priority_urgency tbl"
  have irr: "\<not> ?c a a" for a
    by (simp add: compare_priority_urgency_def compare_urgency_def)
  have trans: "?c a c" if "?c a b" "?c b c" for a b c
    using that unfolding compare_priority_urgency_def compare_urgency_def Let_def
    by (cases "priority a"; cases "priority b"; cases "priority c")
       (simp_all split: if_splits)
  have inc: "\<not> ?c a c \<and> \<not> ?c c a" if "\<not> ?c a b" "\<not> ?c b a" "\<not> ?c b c" "\<not> ?c c b" for a b c
    using that unfolding compare_priority_urgency_def compare_urgency_def Let_def
    by (cases "priority a"; cases "priority b"; cases "priority c")
       (simp_all split: if_splits)
  show ?thesis
    unfolding strict_weak_def using irr trans inc by blast
qed

lemma strict_weak_io: "strict_weak (compare_io tbl)"
proof -
  let ?c = "compare_io tbl"
  have irr: "\<not> ?c a a" for a
    by (simp add: compare_io_def)
  have trans: "?c a c" if "?c a b" "?c b c" for a b c
    using that unfolding compare_io_def
    by (cases "priority a"; cases "priority b"; cases "priority c")
       (simp_all split: if_splits)
  have inc: "\<not> ?c a c \<and> \<not> ?c c a" if "\<not> ?c a b" "\<not> ?c b a" "\<not> ?c b c" "\<not> ?c c b" for a b c
    using that unfolding compare_io_def
    by (cases "priority a"; cases "priority b"; cases "priority c")
       (simp_all split: if_splits)
  show ?thesis
    unfolding strict_weak_def using irr trans inc by blast
qed

section \<open>Insertion sort meets the contract of the sorting routine\<close>

lemma mset_insert_by: "mset (insert_by cmp x xs) = add_mset x (mset xs)"
  by (induction xs) auto

lemma mset_insertion_sort: "mset (insertion_sort cmp xs) = mset xs"
  by (induction xs) (auto simp: mset_insert_by)

lemma set_insert_by: "set (insert_by cmp x xs) = insert x (set xs)"
  by (induction xs) auto

lemma sorted_insert_by:
  assumes "strict_weak cmp" "sorted_wrt (\<lambda>a b. \<not> cmp b a) xs"
  shows "sorted_wrt (\<lambda>a b. \<not> cmp b a) (insert_by cmp x xs)"
  using assms(2)
proof (induction xs)
  case Nil
  then show ?case by simp
next
  case (Cons y ys)
  have trans: "\<And>a b c. cmp a b \<Longrightarrow> cmp b c \<Longrightarrow> cmp a c"
    and irr: "\<And>a. \<not> cmp a a"
    using assms(1) unfolding strict_weak_def by blast+
  show ?case
  proof (cases "cmp x y")
    case True
    have "\<not> cmp z x" if "z \<in> set (y # ys)" for z
    proof
      assume "cmp z x"
      then have "cmp z y" using True trans by blast
      with that Cons.prems irr show False by auto
    qed
    with True Cons.prems show ?thesis by auto
  next
    case False
    with Cons show ?thesis by (auto simp: set_insert_by)
  qed
qed

lemma sorted_insertion_sort:
  "strict_weak cmp \<Longrightarrow> sorted_wrt (\<lambda>a b. \<not> cmp b a) (insertion_sort cmp xs)"
  by (induction xs) (auto intro: sorted_insert_by)

lemma std_sort_insertion_sort: "std_sort insertion_sort"
  unfolding std_sort_def by (simp add: mset_insertion_sort sorted_insertion_sort)

section \<open>The table after an event\<close>

lemma task_update_state [simp]: "task (update_state t s) = task s"
  by (simp add: update_state_def Let_def)

lemma is_io_active_update_state [simp]: "is_io_active (update_state t s) = is_io_active s"
  by (simp add: update_state_def Let_def)

lemma io_remaining_update_state [simp]: "io_remaining (update_state t s) = io_remaining s"
  by (simp add: update_state_def Let_def)

lemma remaining_time_update_state [simp]: "remaining_time (update_state t s) = remaining_time s"
  by (simp add: update_state_def Let_def)

lemma task_io_tick [simp]: "task (io_tick s) = task s"
  by (simp add: io_tick_def)

lemma is_io_active_io_tick [simp]: "is_io_active (io_tick s) = is_io_active s"
  by (simp add: io_tick_def)

lemma remaining_time_io_tick [simp]: "remaining_time (io_tick s) = remaining_time s"
  by (simp add: io_tick_def)

lemma slack_time_io_tick [simp]: "slack_time (io_tick s) = slack_time s"
  by (simp add: io_tick_def)

lemma urgency_level_io_tick [simp]: "urgency_level (io_tick s) = urgency_level s"
  by (simp add: io_tick_def)

lemma map_of_map_values:
  "map_of (map (\<lambda>(k, v). (k, f v)) tbl) k = map_option f (map_of tbl k)"
  by (induction tbl) auto

lemma map_of_apply_event:
  "map_of (apply_event e tbl) k =
     (case etype e of
        kTaskArrival \<Rightarrow> if k = taskId (etask e) then Some (arrival_state e) else map_of tbl k
      | kTaskFinish \<Rightarrow> if k = taskId (etask e) then None else map_of tbl k
      | kIoRequest \<Rightarrow>
          if k = taskId (etask e)
          then map_option (\<lambda>s. s\<lparr>is_io_active := True, io_remaining := 10\<rparr>) (map_of tbl k)
          else map_of tbl k
      | kIoEnd \<Rightarrow>
          if k = taskId (etask e)
          then map_option (\<lambda>s. s\<lparr>is_io_active := False, io_remaining := 0\<rparr>) (map_of tbl k)
          else map_of tbl k
      | kTimer \<Rightarrow> map_option (\<lambda>s. io_tick (update_state (time e) s)) (map_of tbl k))"
proof (cases "etype e")
  case kTimer
  then show ?thesis
    by (simp add: apply_event_def update_task_states_def map_of_map_values
        option.map_comp comp_def del: map_map)
next
  case kTaskArrival
  then show ?thesis by (simp add: apply_event_def update_conv')
next
  case kTaskFinish
  then show ?thesis by (simp add: apply_event_def delete_conv')
next
  case kIoRequest
  then show ?thesis
    by (auto simp: apply_event_def map_of_map_entry split: option.splits)
next
  case kIoEnd
  then show ?thesis
    by (auto simp: apply_event_def map_of_map_entry split: option.splits)
qed

lemma distinct_apply_event:
  "distinct (map fst tbl) \<Longrightarrow> distinct (map fst (apply_event e tbl))"
  by (cases "etype e")
     (simp_all add: apply_event_def update_task_states_def distinct_update distinct_delete
        distinct_map_entry comp_def split_def)

lemma table_ok_iff:
  "table_ok tbl \<longleftrightarrow>
     distinct (map fst tbl) \<and> (\<forall>k s. map_of tbl k = Some s \<longrightarrow> taskId (task s) = k)"
proof (cases "distinct (map fst tbl)")
  case True
  then show ?thesis
    by (auto simp: table_ok_def list_all_iff)
next
  case False
  then show ?thesis by (simp add: table_ok_def)
qed

lemma table_ok_Nil: "table_ok []"
  by (simp add: table_ok_def)

lemma table_ok_apply_event:
  assumes "table_ok tbl"
  shows "table_ok (apply_event e tbl)"
proof -
  have d: "distinct (map fst tbl)"
    and ids: "\<And>k s. map_of tbl k = Some s \<Longrightarrow> taskId (task s) = k"
    using assms by (simp_all add: table_ok_iff)
  have "taskId (task s) = k" if "map_of (apply_event e tbl) k = Some s" for k s
    using that ids
    by (cases "etype e")
       (auto simp: map_of_apply_event arrival_state_def sub32_def wrap32_def split: if_splits)
  with distinct_apply_event [OF d] show ?thesis
    by (simp add: table_ok_iff)
qed

lemma table_ok_apply_events: "table_ok tbl \<Longrightarrow> table_ok (apply_events es tbl)"
  by (induction es arbitrary: tbl) (simp_all add: table_ok_apply_event)

lemma member_iff_map_of:
  "table_ok tbl \<Longrightarrow> (k, s) \<in> set tbl \<longleftrightarrow> map_of tbl k = Some s"
  by (simp add: table_ok_def)

lemma state_at_member:
  "table_ok tbl \<Longrightarrow> (k, s) \<in> set tbl \<Longrightarrow> state_at tbl (taskId (task s)) = s"
  by (auto simp: state_at_def table_ok_def list_all_iff)

section \<open>The first element of the sorted candidates\<close>

lemma first_id_sorted_empty:
  assumes "std_sort srt" "strict_weak cmp"
  shows "first_id (srt cmp []) = 0"
proof -
  have "mset (srt cmp []) = mset []"
    using assms unfolding std_sort_def by blast
  then show ?thesis by (simp add: first_id_def)
qed

lemma first_id_sorted_maximal:
  assumes "std_sort srt" "strict_weak cmp" "xs \<noteq> []"
  shows "\<exists>t\<in>set xs. first_id (srt cmp xs) = taskId t \<and> (\<forall>u\<in>set xs. \<not> cmp u t)"
proof -
  have perm: "mset (srt cmp xs) = mset xs"
    and srtd: "sorted_wrt (\<lambda>a b. \<not> cmp b a) (srt cmp xs)"
    using assms(1,2) unfolding std_sort_def by blast+
  have sets: "set (srt cmp xs) = set xs"
    using perm by (rule mset_eq_setD)
  have irr: "\<not> cmp a a" for a
    using assms(2) unfolding strict_weak_def by blast
  from sets assms(3) obtain t ts where ys: "srt cmp xs = t # ts"
    by (cases "srt cmp xs") auto
  have "\<not> cmp u t" if "u \<in> set xs" for u
  proof (cases "u = t")
    case True
    then show ?thesis by (simp add: irr)
  next
    case False
    with that sets ys have "u \<in> set ts" by auto
    with srtd ys show ?thesis by simp
  qed
  moreover have "t \<in> set xs" using sets ys by auto
  moreover have "first_id (srt cmp xs) = taskId t" by (simp add: ys first_id_def)
  ultimately show ?thesis by blast
qed

lemma compare_priority_urgency_records:
  assumes "table_ok tbl" "(k, s) \<in> set tbl" "(k', s') \<in> set tbl"
  shows "compare_priority_urgency tbl (task s) (task s') \<longleftrightarrow> cpu_before s s'"
proof -
  have "state_at tbl (taskId (task s)) = s" "state_at tbl (taskId (task s')) = s'"
    using assms by (simp_all add: state_at_member)
  then show ?thesis
    unfolding compare_priority_urgency_def compare_urgency_def cpu_before_def Let_def
    by (cases "priority (task s)"; cases "priority (task s')") auto
qed

lemma compare_io_records:
  assumes "table_ok tbl" "(k, s) \<in> set tbl" "(k', s') \<in> set tbl"
  shows "compare_io tbl (task s) (task s') \<longleftrightarrow> io_before s s'"
proof -
  have "state_at tbl (taskId (task s)) = s" "state_at tbl (taskId (task s')) = s'"
    using assms by (simp_all add: state_at_member)
  then show ?thesis
    unfolding compare_io_def io_before_def
    by (cases "priority (task s)"; cases "priority (task s')") auto
qed

lemma key_is_taskId: "table_ok tbl \<Longrightarrow> (k, s) \<in> set tbl \<Longrightarrow> taskId (task s) = k"
  by (auto simp: table_ok_def list_all_iff)

text \<open>
  The choice among the records that pass a filter \<open>P\<close>: the id of a record that no
  other passing record is ordered before.
\<close>

lemma select_maximal:
  assumes srt: "std_sort srt" and ok: "table_ok tbl" and sw: "strict_weak cmp"
    and rel: "\<And>k s k' s'. (k, s) \<in> set tbl \<Longrightarrow> (k', s') \<in> set tbl \<Longrightarrow>
                cmp (task s) (task s') \<longleftrightarrow> before s s'"
    and ex: "\<exists>(k, s) \<in> set tbl. P k s"
  shows "\<exists>(k, s) \<in> set tbl. P k s \<and>
           first_id (srt cmp (map (\<lambda>(k, s). task s) (filter (\<lambda>(k, s). P k s) tbl))) = k \<and>
           (\<forall>(k', s') \<in> set tbl. P k' s' \<longrightarrow> \<not> before s' s)"
proof -
  let ?xs = "map (\<lambda>(k, s). task s) (filter (\<lambda>(k, s). P k s) tbl)"
  from ex have "?xs \<noteq> []"
    by (auto simp: filter_empty_conv)
  from first_id_sorted_maximal [OF srt sw this]
  obtain t where t: "t \<in> set ?xs" "first_id (srt cmp ?xs) = taskId t"
    and mx: "\<And>u. u \<in> set ?xs \<Longrightarrow> \<not> cmp u t"
    by blast
  from t(1) obtain k s where ks: "(k, s) \<in> set tbl" "P k s" "t = task s"
    by auto
  have "\<not> before s' s" if "(k', s') \<in> set tbl" "P k' s'" for k' s'
  proof -
    from that have "task s' \<in> set ?xs" by force
    then have "\<not> cmp (task s') (task s)" using mx ks(3) by simp
    then show ?thesis using rel [OF that(1) ks(1)] by simp
  qed
  moreover have "first_id (srt cmp ?xs) = k"
    using t(2) ks key_is_taskId [OF ok ks(1)] by simp
  ultimately show ?thesis using ks by blast
qed

lemma select_none:
  assumes "std_sort srt" "strict_weak cmp" "\<forall>(k, s) \<in> set tbl. \<not> P k s"
  shows "first_id (srt cmp (map (\<lambda>(k, s). task s) (filter (\<lambda>(k, s). P k s) tbl))) = 0"
proof -
  have "filter (\<lambda>(k, s). P k s) tbl = []"
    using assms(3) by (auto simp: filter_empty_conv)
  then show ?thesis
    using first_id_sorted_empty [OF assms(1,2)] by simp
qed

lemma select_member:
  assumes "std_sort srt" "table_ok tbl" "strict_weak cmp"
    and "r = first_id (srt cmp (map (\<lambda>(k, s). task s) (filter (\<lambda>(k, s). P k s) tbl)))"
  shows "r = 0 \<or> (\<exists>s. (r, s) \<in> set tbl \<and> P r s)"
proof (cases "\<exists>(k, s) \<in> set tbl. P k s")
  case True
  from select_maximal [OF assms(1,2,3) _ True, of "\<lambda>s s'. cmp (task s) (task s')"]
  show ?thesis
    unfolding assms(4) by blast
next
  case False
  then have "\<forall>(k, s) \<in> set tbl. \<not> P k s" by blast
  from select_none [OF assms(1,3) this] show ?thesis
    unfolding assms(4) by simp
qed

section \<open>One record under a timer event\<close>

lemma timer_record:
  "io_tick (update_state t s) =
     (if is_io_active s
      then s\<lparr>io_remaining := (if 0 < io_remaining s then io_remaining s - 1 else io_remaining s)\<rparr>
      else s\<lparr>slack_time := wrap32 (deadline (task s) - t - remaining_time s),
             urgency_level :=
               urgency_of (wrap32 (deadline (task s) - t - remaining_time s)) (priority (task s))\<rparr>)"
  by (simp add: io_tick_def update_state_def urgency_of_def base_tier_def Let_def sub32_sub32)

section \<open>Properties of all records that events preserve\<close>

lemma all_values_update:
  "P v \<Longrightarrow> \<forall>s \<in> snd ` set tbl. P s \<Longrightarrow> \<forall>s \<in> snd ` set (AList.update k v tbl). P s"
  by (induction tbl) auto

lemma all_values_delete:
  "\<forall>s \<in> snd ` set tbl. P s \<Longrightarrow> \<forall>s \<in> snd ` set (AList.delete k tbl). P s"
  by (auto simp: AList.delete_eq)

lemma all_values_map_entry:
  "(\<And>s. P s \<Longrightarrow> P (f s)) \<Longrightarrow> \<forall>s \<in> snd ` set tbl. P s \<Longrightarrow>
     \<forall>s \<in> snd ` set (AList.map_entry k f tbl). P s"
  by (induction tbl) auto

lemma all_values_map:
  "(\<And>s. P s \<Longrightarrow> P (f s)) \<Longrightarrow> \<forall>s \<in> snd ` set tbl. P s \<Longrightarrow>
     \<forall>s \<in> snd ` set (map (\<lambda>(k, v). (k, f v)) tbl). P s"
  by (induction tbl) auto

lemma io_nonneg_values:
  assumes "\<forall>s \<in> snd ` set tbl. 0 \<le> io_remaining s"
  shows "\<forall>s \<in> snd ` set (apply_event e tbl). 0 \<le> io_remaining s"
proof (cases "etype e")
  case kTimer
  have "\<forall>s \<in> snd ` set (update_task_states (time e) tbl). 0 \<le> io_remaining s"
    unfolding update_task_states_def
    by (rule all_values_map [where P = "\<lambda>s. 0 \<le> io_remaining s" and f = "update_state (time e)", OF _ assms])
       simp
  then have "\<forall>s \<in> snd ` set (map (\<lambda>(k, state). (k, io_tick state))
       (update_task_states (time e) tbl)). 0 \<le> io_remaining s"
    by (rule all_values_map [where P = "\<lambda>s. 0 \<le> io_remaining s" and f = io_tick, rotated])
       (simp add: io_tick_def)
  with kTimer show ?thesis
    by (simp add: apply_event_def)
next
  case kTaskArrival
  have "\<forall>s \<in> snd ` set (AList.update (taskId (etask e)) (arrival_state e) tbl).
          0 \<le> io_remaining s"
    by (rule all_values_update [where P = "\<lambda>s. 0 \<le> io_remaining s", OF _ assms])
       (simp add: arrival_state_def sub32_def wrap32_def)
  with kTaskArrival show ?thesis
    by (simp add: apply_event_def)
next
  case kTaskFinish
  have "\<forall>s \<in> snd ` set (AList.delete (taskId (etask e)) tbl). 0 \<le> io_remaining s"
    by (rule all_values_delete [where P = "\<lambda>s. 0 \<le> io_remaining s", OF assms])
  with kTaskFinish show ?thesis
    by (simp add: apply_event_def)
next
  case kIoRequest
  have "\<forall>s \<in> snd ` set (AList.map_entry (taskId (etask e))
          (\<lambda>s. s\<lparr>is_io_active := True, io_remaining := 10\<rparr>) tbl). 0 \<le> io_remaining s"
    by (rule all_values_map_entry [where P = "\<lambda>s. 0 \<le> io_remaining s", OF _ assms]) simp
  with kIoRequest assms show ?thesis
    by (simp add: apply_event_def del: ball_simps image_iff)
next
  case kIoEnd
  have "\<forall>s \<in> snd ` set (AList.map_entry (taskId (etask e))
          (\<lambda>s. s\<lparr>is_io_active := False, io_remaining := 0\<rparr>) tbl). 0 \<le> io_remaining s"
    by (rule all_values_map_entry [where P = "\<lambda>s. 0 \<le> io_remaining s", OF _ assms]) simp
  with kIoEnd assms show ?thesis
    by (simp add: apply_event_def)
qed

lemma io_nonneg_values_events:
  "\<forall>s \<in> snd ` set tbl. 0 \<le> io_remaining s \<Longrightarrow>
   \<forall>s \<in> snd ` set (apply_events es tbl). 0 \<le> io_remaining s"
proof (induction es arbitrary: tbl)
  case Nil
  then show ?case by simp
next
  case (Cons e es)
  from Cons.prems have "\<forall>s \<in> snd ` set (apply_event e tbl). 0 \<le> io_remaining s"
    by (rule io_nonneg_values)
  then have "\<forall>s \<in> snd ` set (apply_events es (apply_event e tbl)). 0 \<le> io_remaining s"
    by (rule Cons.IH)
  then show ?case by simp
qed

lemma io_nonneg_apply_events:
  assumes "\<forall>(k, s) \<in> set tbl. 0 \<le> io_remaining s"
  shows "\<forall>(k, s) \<in> set (apply_events es tbl). 0 \<le> io_remaining s"
proof -
  from assms have "\<forall>s \<in> snd ` set tbl. 0 \<le> io_remaining s" by (simp add: split_def)
  then have "\<forall>s \<in> snd ` set (apply_events es tbl). 0 \<le> io_remaining s"
    by (rule io_nonneg_values_events)
  then show ?thesis by (simp add: split_def)
qed

section \<open>Fields that events leave alone\<close>

lemma frozen_step:
  assumes "map_of tbl k = Some s"
    and "(etype e = kTaskArrival \<or> etype e = kTaskFinish) \<longrightarrow> taskId (etask e) \<noteq> k"
  shows "\<exists>s'. map_of (apply_event e tbl) k = Some s' \<and>
           remaining_time s' = remaining_time s \<and> task s' = task s"
  using assms by (cases "etype e") (auto simp: map_of_apply_event)

lemma frozen_steps:
  assumes "map_of tbl k = Some s"
    and "\<forall>e \<in> set events.
           (etype e = kTaskArrival \<or> etype e = kTaskFinish) \<longrightarrow> taskId (etask e) \<noteq> k"
  shows "\<exists>s'. map_of (apply_events events tbl) k = Some s' \<and>
           remaining_time s' = remaining_time s \<and> task s' = task s"
  using assms
proof (induction events arbitrary: tbl s)
  case Nil
  then show ?case by simp
next
  case (Cons e es)
  from Cons.prems have "\<exists>s'. map_of (apply_event e tbl) k = Some s' \<and>
           remaining_time s' = remaining_time s \<and> task s' = task s"
    by (intro frozen_step) simp_all
  then obtain s1 where s1: "map_of (apply_event e tbl) k = Some s1"
    "remaining_time s1 = remaining_time s" "task s1 = task s"
    by blast
  from Cons.IH [OF s1(1)] Cons.prems(2) s1(2,3) show ?case by simp
qed

section \<open>IO selection while the device is busy\<close>

text \<open>
  C3. Whenever the caller passes a non-zero \<open>current_io\<close>, the returned \<open>ioTask\<close> is
  \<open>current_io\<close>: whatever the events, the table, the current CPU task and the sorting
  routine are.
\<close>

theorem io_busy_echo:
  "current_io \<noteq> 0 \<Longrightarrow>
     ioTask (fst (policy_with srt events current_cpu current_io tbl)) = current_io"
  by (simp add: policy_with_def Let_def)

theorem io_busy_echo_witness:
  "(7::int) \<noteq> 0 \<and>
   ioTask (fst (policy_with insertion_sort
     [\<lparr>etype = kTaskArrival, time = 0, etask = \<lparr>taskId = 1, deadline = 20, priority = kHigh\<rparr>\<rparr>,
      \<lparr>etype = kIoRequest, time = 0, etask = \<lparr>taskId = 1, deadline = 20, priority = kHigh\<rparr>\<rparr>]
     0 7 [])) = 7"
  using io_busy_echo [of 7 insertion_sort
     "[\<lparr>etype = kTaskArrival, time = 0, etask = \<lparr>taskId = 1, deadline = 20, priority = kHigh\<rparr>\<rparr>,
       \<lparr>etype = kIoRequest, time = 0, etask = \<lparr>taskId = 1, deadline = 20, priority = kHigh\<rparr>\<rparr>]"
     0 "[]"]
  by simp

section \<open>CPU selection\<close>

text \<open>
  C1. After the event batch has been applied, the tasks handed to the first sort are
  exactly the snapshots of the records whose \<open>is_io_active\<close> is false. If there is no
  such record the returned \<open>cpuTask\<close> is 0. Otherwise \<open>cpuTask\<close> is the id of a ready
  record that no ready record comes before in the order "high priority before normal;
  within equal priority the higher urgency level; within equal priority and urgency
  level the smaller slack time"; and whenever one ready record comes before every other
  ready record, \<open>cpuTask\<close> is the id of that record. This holds for every sorting routine
  that meets the contract of \<^verbatim>\<open>std::sort\<close> and every iteration order of the table.
\<close>

theorem cpu_selection:
  assumes "std_sort srt" and "table_ok tbl"
    and "tbl' = apply_events events tbl"
    and "cpu = cpuTask (fst (policy_with srt events current_cpu current_io tbl))"
  shows "snd (policy_with srt events current_cpu current_io tbl) = tbl' \<and>
     set (ready_tasks tbl') = {task s |k s. (k, s) \<in> set tbl' \<and> \<not> is_io_active s} \<and>
     ((\<forall>(k, s) \<in> set tbl'. is_io_active s) \<longrightarrow> cpu = 0) \<and>
     ((\<exists>(k, s) \<in> set tbl'. \<not> is_io_active s) \<longrightarrow>
        (\<exists>(k, s) \<in> set tbl'. \<not> is_io_active s \<and> cpu = k \<and>
           (\<forall>(k', s') \<in> set tbl'. \<not> is_io_active s' \<longrightarrow> \<not> cpu_before s' s))) \<and>
     (\<forall>(k, s) \<in> set tbl'. \<not> is_io_active s \<and>
        (\<forall>(k', s') \<in> set tbl'. \<not> is_io_active s' \<and> k' \<noteq> k \<longrightarrow> cpu_before s s') \<longrightarrow> cpu = k)"
proof -
  let ?P = "\<lambda>(k::int) s. \<not> is_io_active s"
  let ?cmp = "compare_priority_urgency tbl'"
  have ok: "table_ok tbl'"
    using assms(2,3) by (simp add: table_ok_apply_events)
  have cpu: "cpu = first_id (srt ?cmp (map (\<lambda>(k, s). task s) (filter (\<lambda>(k, s). ?P k s) tbl')))"
    using assms(3,4) by (simp add: policy_with_def Let_def ready_tasks_def)
  have sw: "strict_weak ?cmp" by (rule strict_weak_cpu)
  have rel: "?cmp (task s) (task s') \<longleftrightarrow> cpu_before s s'"
    if "(k, s) \<in> set tbl'" "(k', s') \<in> set tbl'" for k s k' s'
    using compare_priority_urgency_records [OF ok that] .
  have c1: "snd (policy_with srt events current_cpu current_io tbl) = tbl'"
    using assms(3) by (simp add: policy_with_def Let_def)
  have c2: "set (ready_tasks tbl') = {task s |k s. (k, s) \<in> set tbl' \<and> \<not> is_io_active s}"
    by (force simp: ready_tasks_def)
  have c3: "cpu = 0" if "\<forall>(k, s) \<in> set tbl'. is_io_active s"
  proof -
    from that have "\<forall>(k, s) \<in> set tbl'. \<not> ?P k s" by auto
    from select_none [OF assms(1) sw this] cpu show ?thesis by simp
  qed
  have c4: "\<exists>(k, s) \<in> set tbl'. \<not> is_io_active s \<and> cpu = k \<and>
           (\<forall>(k', s') \<in> set tbl'. \<not> is_io_active s' \<longrightarrow> \<not> cpu_before s' s)"
    if "\<exists>(k, s) \<in> set tbl'. \<not> is_io_active s"
  proof -
    from that have "\<exists>(k, s) \<in> set tbl'. ?P k s" by auto
    from select_maximal [OF assms(1) ok sw rel this, folded cpu]
    show ?thesis by simp
  qed
  have c5: "cpu = k"
    if ks: "(k, s) \<in> set tbl'" "\<not> is_io_active s"
      and best: "\<forall>(k', s') \<in> set tbl'. \<not> is_io_active s' \<and> k' \<noteq> k \<longrightarrow> cpu_before s s'"
    for k s
  proof -
    from ks have "\<exists>(k, s) \<in> set tbl'. \<not> is_io_active s" by auto
    from c4 [OF this] obtain k0 s0 where
      k0: "(k0, s0) \<in> set tbl'" "\<not> is_io_active s0" "cpu = k0"
      and mx: "\<And>k' s'. (k', s') \<in> set tbl' \<Longrightarrow> \<not> is_io_active s' \<Longrightarrow> \<not> cpu_before s' s0"
      by blast
    show ?thesis
    proof (rule ccontr)
      assume "cpu \<noteq> k"
      with k0 best have "cpu_before s s0" by auto
      with mx [OF ks] show False by simp
    qed
  qed
  from c1 c2 c3 c4 c5 show ?thesis by blast
qed

theorem cpu_selection_witness:
  "std_sort insertion_sort \<and> table_ok [] \<and>
   cpuTask (fst (policy_with insertion_sort
     [\<lparr>etype = kTaskArrival, time = 0, etask = \<lparr>taskId = 1, deadline = 20, priority = kLow\<rparr>\<rparr>,
      \<lparr>etype = kTaskArrival, time = 0, etask = \<lparr>taskId = 2, deadline = 5, priority = kHigh\<rparr>\<rparr>]
     0 0 [])) = 2"
proof -
  let ?evs = "[\<lparr>etype = kTaskArrival, time = 0, etask = \<lparr>taskId = 1, deadline = 20, priority = kLow\<rparr>\<rparr>,
      \<lparr>etype = kTaskArrival, time = 0, etask = \<lparr>taskId = 2, deadline = 5, priority = kHigh\<rparr>\<rparr>]"
  let ?cpu = "cpuTask (fst (policy_with insertion_sort ?evs 0 0 []))"
  have tbl: "apply_events ?evs [] =
     [(1, \<lparr>task = \<lparr>taskId = 1, deadline = 20, priority = kLow\<rparr>, is_io_active = False,
           remaining_time = 20, slack_time = 20, io_remaining = 0, urgency_level = 0\<rparr>),
      (2, \<lparr>task = \<lparr>taskId = 2, deadline = 5, priority = kHigh\<rparr>, is_io_active = False,
           remaining_time = 5, slack_time = 5, io_remaining = 0, urgency_level = 0\<rparr>)]"
    by (simp add: apply_event_def arrival_state_def sub32_def wrap32_def)
  have "\<forall>(k, s) \<in> set (apply_events ?evs []). \<not> is_io_active s \<and>
        (\<forall>(k', s') \<in> set (apply_events ?evs []). \<not> is_io_active s' \<and> k' \<noteq> k \<longrightarrow> cpu_before s s')
        \<longrightarrow> ?cpu = k"
    using cpu_selection [where events = ?evs and current_cpu = 0 and current_io = 0,
        OF std_sort_insertion_sort table_ok_Nil refl refl]
    by blast
  then have "?cpu = 2"
    unfolding tbl by (simp add: cpu_before_def)
  then show ?thesis
    using std_sort_insertion_sort table_ok_Nil by simp
qed

section \<open>IO selection while the device is free\<close>

text \<open>
  C4. With \<open>current_io = 0\<close>, the tasks handed to the second sort are exactly the
  snapshots of the records whose \<open>is_io_active\<close> is true and whose key differs from
  \<open>current_cpu\<close>. If there is no such record the returned \<open>ioTask\<close> is 0. Otherwise
  \<open>ioTask\<close> is the id of a candidate that no candidate comes before in the order "high
  priority before normal; within equal priority the smaller \<open>io_remaining\<close>"; and
  whenever one candidate comes before every other candidate, \<open>ioTask\<close> is its id.
\<close>

theorem io_free_selection:
  assumes "std_sort srt" and "table_ok tbl" and "current_io = 0"
    and "tbl' = apply_events events tbl"
    and "io = ioTask (fst (policy_with srt events current_cpu current_io tbl))"
  shows
    "set (io_tasks current_cpu tbl') =
       {task s |k s. (k, s) \<in> set tbl' \<and> is_io_active s \<and> k \<noteq> current_cpu} \<and>
     ((\<forall>(k, s) \<in> set tbl'. \<not> (is_io_active s \<and> k \<noteq> current_cpu)) \<longrightarrow> io = 0) \<and>
     ((\<exists>(k, s) \<in> set tbl'. is_io_active s \<and> k \<noteq> current_cpu) \<longrightarrow>
        (\<exists>(k, s) \<in> set tbl'. is_io_active s \<and> k \<noteq> current_cpu \<and> io = k \<and>
           (\<forall>(k', s') \<in> set tbl'. is_io_active s' \<and> k' \<noteq> current_cpu \<longrightarrow> \<not> io_before s' s))) \<and>
     (\<forall>(k, s) \<in> set tbl'. is_io_active s \<and> k \<noteq> current_cpu \<and>
        (\<forall>(k', s') \<in> set tbl'. is_io_active s' \<and> k' \<noteq> current_cpu \<and> k' \<noteq> k \<longrightarrow> io_before s s')
        \<longrightarrow> io = k)"
proof -
  let ?P = "\<lambda>(k::int) s. is_io_active s \<and> k \<noteq> current_cpu"
  let ?cmp = "compare_io tbl'"
  have ok: "table_ok tbl'"
    using assms(2,4) by (simp add: table_ok_apply_events)
  have io: "io = first_id (srt ?cmp (map (\<lambda>(k, s). task s) (filter (\<lambda>(k, s). ?P k s) tbl')))"
    using assms(3,4,5) by (simp add: policy_with_def Let_def io_tasks_def)
  have sw: "strict_weak ?cmp" by (rule strict_weak_io)
  have rel: "?cmp (task s) (task s') \<longleftrightarrow> io_before s s'"
    if "(k, s) \<in> set tbl'" "(k', s') \<in> set tbl'" for k s k' s'
    using compare_io_records [OF ok that] .
  have c2: "set (io_tasks current_cpu tbl') =
       {task s |k s. (k, s) \<in> set tbl' \<and> is_io_active s \<and> k \<noteq> current_cpu}"
    by (force simp: io_tasks_def)
  have c3: "io = 0" if "\<forall>(k, s) \<in> set tbl'. \<not> (is_io_active s \<and> k \<noteq> current_cpu)"
  proof -
    from that have "\<forall>(k, s) \<in> set tbl'. \<not> ?P k s" by auto
    from select_none [OF assms(1) sw this] io show ?thesis by simp
  qed
  have c4: "\<exists>(k, s) \<in> set tbl'. is_io_active s \<and> k \<noteq> current_cpu \<and> io = k \<and>
           (\<forall>(k', s') \<in> set tbl'. is_io_active s' \<and> k' \<noteq> current_cpu \<longrightarrow> \<not> io_before s' s)"
    if "\<exists>(k, s) \<in> set tbl'. is_io_active s \<and> k \<noteq> current_cpu"
  proof -
    from that have "\<exists>(k, s) \<in> set tbl'. ?P k s" by auto
    from select_maximal [OF assms(1) ok sw rel this, folded io]
    show ?thesis by simp
  qed
  have c5: "io = k"
    if ks: "(k, s) \<in> set tbl'" "is_io_active s" "k \<noteq> current_cpu"
      and best: "\<forall>(k', s') \<in> set tbl'.
         is_io_active s' \<and> k' \<noteq> current_cpu \<and> k' \<noteq> k \<longrightarrow> io_before s s'"
    for k s
  proof -
    from ks have "\<exists>(k, s) \<in> set tbl'. is_io_active s \<and> k \<noteq> current_cpu" by auto
    from c4 [OF this] obtain k0 s0 where
      k0: "(k0, s0) \<in> set tbl'" "is_io_active s0" "k0 \<noteq> current_cpu" "io = k0"
      and mx: "\<And>k' s'. (k', s') \<in> set tbl' \<Longrightarrow> is_io_active s' \<Longrightarrow> k' \<noteq> current_cpu
                 \<Longrightarrow> \<not> io_before s' s0"
      by blast
    show ?thesis
    proof (rule ccontr)
      assume "io \<noteq> k"
      with k0 best have "io_before s s0" by auto
      with mx [OF ks] show False by simp
    qed
  qed
  from c2 c3 c4 c5 show ?thesis by blast
qed

theorem io_free_selection_witness:
  "std_sort insertion_sort \<and> table_ok [] \<and>
   ioTask (fst (policy_with insertion_sort
     [\<lparr>etype = kTaskArrival, time = 0, etask = \<lparr>taskId = 1, deadline = 20, priority = kLow\<rparr>\<rparr>,
      \<lparr>etype = kTaskArrival, time = 0, etask = \<lparr>taskId = 2, deadline = 30, priority = kHigh\<rparr>\<rparr>,
      \<lparr>etype = kIoRequest, time = 1, etask = \<lparr>taskId = 1, deadline = 20, priority = kLow\<rparr>\<rparr>,
      \<lparr>etype = kIoRequest, time = 1, etask = \<lparr>taskId = 2, deadline = 30, priority = kHigh\<rparr>\<rparr>]
     0 0 [])) = 2"
proof -
  let ?evs = "[\<lparr>etype = kTaskArrival, time = 0, etask = \<lparr>taskId = 1, deadline = 20, priority = kLow\<rparr>\<rparr>,
      \<lparr>etype = kTaskArrival, time = 0, etask = \<lparr>taskId = 2, deadline = 30, priority = kHigh\<rparr>\<rparr>,
      \<lparr>etype = kIoRequest, time = 1, etask = \<lparr>taskId = 1, deadline = 20, priority = kLow\<rparr>\<rparr>,
      \<lparr>etype = kIoRequest, time = 1, etask = \<lparr>taskId = 2, deadline = 30, priority = kHigh\<rparr>\<rparr>]"
  let ?io = "ioTask (fst (policy_with insertion_sort ?evs 0 0 []))"
  have tbl: "apply_events ?evs [] =
     [(1, \<lparr>task = \<lparr>taskId = 1, deadline = 20, priority = kLow\<rparr>, is_io_active = True,
           remaining_time = 20, slack_time = 20, io_remaining = 10, urgency_level = 0\<rparr>),
      (2, \<lparr>task = \<lparr>taskId = 2, deadline = 30, priority = kHigh\<rparr>, is_io_active = True,
           remaining_time = 30, slack_time = 30, io_remaining = 10, urgency_level = 0\<rparr>)]"
    by (simp add: apply_event_def arrival_state_def sub32_def wrap32_def)
  have "\<forall>(k, s) \<in> set (apply_events ?evs []). is_io_active s \<and> k \<noteq> 0 \<and>
        (\<forall>(k', s') \<in> set (apply_events ?evs []).
           is_io_active s' \<and> k' \<noteq> 0 \<and> k' \<noteq> k \<longrightarrow> io_before s s')
        \<longrightarrow> ?io = k"
    using io_free_selection [where events = ?evs and current_cpu = 0,
        OF std_sort_insertion_sort table_ok_Nil refl refl refl]
    by blast
  then have "?io = 2"
    unfolding tbl by (simp add: io_before_def)
  then show ?thesis
    using std_sort_insertion_sort table_ok_Nil by simp
qed

section \<open>Urgency recomputation on a timer event\<close>

text \<open>
  C2. A timer event with timestamp \<open>t\<close> rewrites every record of the table in place. A
  record with \<open>is_io_active\<close> false gets as \<open>slack_time\<close> the 32-bit difference
  \<open>deadline - t - remaining_time\<close> and the urgency level that \<open>urgency_of\<close> derives from
  that slack and the priority (2 for slack at most 0, 1 for slack from 1 to 5, 0 above 5;
  raised to at least 1 for a high-priority task with slack at most 10, so that a 2 stays
  a 2); nothing else of it changes. A record with \<open>is_io_active\<close> true keeps its
  \<open>slack_time\<close> and \<open>urgency_level\<close>; only its \<open>io_remaining\<close> counts down while
  positive. Whenever the difference of every record that is not IO-active fits into 32
  bits, the slack is the mathematical difference \<open>deadline - t - remaining_time\<close>.
\<close>

theorem timer_recompute:
  assumes "etype e = kTimer"
  shows
    "apply_event e tbl =
       map (\<lambda>(k, s).
              (k, if is_io_active s
                  then s\<lparr>io_remaining :=
                           (if 0 < io_remaining s then io_remaining s - 1 else io_remaining s)\<rparr>
                  else s\<lparr>slack_time := wrap32 (deadline (task s) - time e - remaining_time s),
                         urgency_level :=
                           urgency_of (wrap32 (deadline (task s) - time e - remaining_time s))
                             (priority (task s))\<rparr>)) tbl \<and>
     ((\<forall>(k, s) \<in> set tbl.
         \<not> is_io_active s \<longrightarrow> in_range32 (deadline (task s) - time e - remaining_time s)) \<longrightarrow>
      apply_event e tbl =
        map (\<lambda>(k, s).
               (k, if is_io_active s
                   then s\<lparr>io_remaining :=
                            (if 0 < io_remaining s then io_remaining s - 1 else io_remaining s)\<rparr>
                   else s\<lparr>slack_time := deadline (task s) - time e - remaining_time s,
                          urgency_level :=
                            urgency_of (deadline (task s) - time e - remaining_time s)
                              (priority (task s))\<rparr>)) tbl)"
proof -
  let ?f = "\<lambda>(k, s).
              (k, if is_io_active s
                  then s\<lparr>io_remaining :=
                           (if 0 < io_remaining s then io_remaining s - 1 else io_remaining s)\<rparr>
                  else s\<lparr>slack_time := wrap32 (deadline (task s) - time e - remaining_time s),
                         urgency_level :=
                           urgency_of (wrap32 (deadline (task s) - time e - remaining_time s))
                             (priority (task s))\<rparr>)"
  let ?g = "\<lambda>(k, s).
               (k, if is_io_active s
                   then s\<lparr>io_remaining :=
                            (if 0 < io_remaining s then io_remaining s - 1 else io_remaining s)\<rparr>
                   else s\<lparr>slack_time := deadline (task s) - time e - remaining_time s,
                          urgency_level :=
                            urgency_of (deadline (task s) - time e - remaining_time s)
                              (priority (task s))\<rparr>)"
  have wrapped: "apply_event e tbl = map ?f tbl"
    using assms
    by (simp add: apply_event_def update_task_states_def timer_record split_def comp_def)
  have "map ?f tbl = map ?g tbl"
    if "\<forall>(k, s) \<in> set tbl.
         \<not> is_io_active s \<longrightarrow> in_range32 (deadline (task s) - time e - remaining_time s)"
  proof (rule map_cong [OF refl])
    fix x assume "x \<in> set tbl"
    with that have "\<not> is_io_active (snd x) \<longrightarrow>
        wrap32 (deadline (task (snd x)) - time e - remaining_time (snd x)) =
        deadline (task (snd x)) - time e - remaining_time (snd x)"
      by (auto simp: wrap32_id)
    then show "?f x = ?g x"
      by (cases x) auto
  qed
  with wrapped show ?thesis by simp
qed

text \<open>
  An instance: at \<open>t = 12\<close> a high-priority and a normal task with slack 8 get levels
  1 and 0, and an IO-active task keeps slack and level.
\<close>

theorem timer_recompute_witness:
  "etype \<lparr>etype = kTimer, time = 12, etask = \<lparr>taskId = 0, deadline = 0, priority = kLow\<rparr>\<rparr> = kTimer \<and>
   apply_event \<lparr>etype = kTimer, time = 12, etask = \<lparr>taskId = 0, deadline = 0, priority = kLow\<rparr>\<rparr>
     [(1, \<lparr>task = \<lparr>taskId = 1, deadline = 30, priority = kHigh\<rparr>, is_io_active = False,
           remaining_time = 10, slack_time = 20, io_remaining = 0, urgency_level = 0\<rparr>),
      (2, \<lparr>task = \<lparr>taskId = 2, deadline = 30, priority = kLow\<rparr>, is_io_active = False,
           remaining_time = 10, slack_time = 20, io_remaining = 0, urgency_level = 0\<rparr>),
      (3, \<lparr>task = \<lparr>taskId = 3, deadline = 15, priority = kLow\<rparr>, is_io_active = True,
           remaining_time = 15, slack_time = 15, io_remaining = 4, urgency_level = 0\<rparr>)] =
     [(1, \<lparr>task = \<lparr>taskId = 1, deadline = 30, priority = kHigh\<rparr>, is_io_active = False,
           remaining_time = 10, slack_time = 8, io_remaining = 0, urgency_level = 1\<rparr>),
      (2, \<lparr>task = \<lparr>taskId = 2, deadline = 30, priority = kLow\<rparr>, is_io_active = False,
           remaining_time = 10, slack_time = 8, io_remaining = 0, urgency_level = 0\<rparr>),
      (3, \<lparr>task = \<lparr>taskId = 3, deadline = 15, priority = kLow\<rparr>, is_io_active = True,
           remaining_time = 15, slack_time = 15, io_remaining = 3, urgency_level = 0\<rparr>)]"
proof -
  let ?e = "\<lparr>etype = kTimer, time = 12, etask = \<lparr>taskId = 0, deadline = 0, priority = kLow\<rparr>\<rparr>"
  let ?tbl = "[(1, \<lparr>task = \<lparr>taskId = 1, deadline = 30, priority = kHigh\<rparr>, is_io_active = False,
           remaining_time = 10, slack_time = 20, io_remaining = 0, urgency_level = 0\<rparr>),
      (2, \<lparr>task = \<lparr>taskId = 2, deadline = 30, priority = kLow\<rparr>, is_io_active = False,
           remaining_time = 10, slack_time = 20, io_remaining = 0, urgency_level = 0\<rparr>),
      (3, \<lparr>task = \<lparr>taskId = 3, deadline = 15, priority = kLow\<rparr>, is_io_active = True,
           remaining_time = 15, slack_time = 15, io_remaining = 4, urgency_level = 0\<rparr>)]"
  have t: "etype ?e = kTimer" by simp
  have r: "\<forall>(k, s) \<in> set ?tbl.
         \<not> is_io_active s \<longrightarrow> in_range32 (deadline (task s) - time ?e - remaining_time s)"
    by (simp add: in_range32_def)
  from timer_recompute [OF t, of ?tbl] r
  have "apply_event ?e ?tbl =
        map (\<lambda>(k, s).
               (k, if is_io_active s
                   then s\<lparr>io_remaining :=
                            (if 0 < io_remaining s then io_remaining s - 1 else io_remaining s)\<rparr>
                   else s\<lparr>slack_time := deadline (task s) - time ?e - remaining_time s,
                          urgency_level :=
                            urgency_of (deadline (task s) - time ?e - remaining_time s)
                              (priority (task s))\<rparr>)) ?tbl"
    by blast
  then show ?thesis
    by (simp add: urgency_of_def base_tier_def)
qed

text \<open>
  Past the 32-bit range the stored slack is the wrapped difference: at
  \<open>t = 2147483647\<close> a task with deadline \<open>-10\<close> and remaining time 5 gets slack
  2147483634 and level 0.
\<close>

lemma timer_wraps_instance:
  "apply_event \<lparr>etype = kTimer, time = 2147483647, etask = \<lparr>taskId = 0, deadline = 0, priority = kLow\<rparr>\<rparr>
     [(1, \<lparr>task = \<lparr>taskId = 1, deadline = - 10, priority = kLow\<rparr>, is_io_active = False,
           remaining_time = 5, slack_time = 0, io_remaining = 0, urgency_level = 0\<rparr>)] =
     [(1, \<lparr>task = \<lparr>taskId = 1, deadline = - 10, priority = kLow\<rparr>, is_io_active = False,
           remaining_time = 5, slack_time = 2147483634, io_remaining = 0, urgency_level = 0\<rparr>)]"
  by (simp add: apply_event_def update_task_states_def update_state_def io_tick_def
      sub32_def wrap32_def)

section \<open>The invariant of \<open>io_remaining\<close>\<close>

text \<open>
  C5. From the empty table, and from any table whose records have non-negative
  \<open>io_remaining\<close>, every event sequence leaves every \<open>io_remaining\<close> non-negative. An
  IO request for a known id stores 10 (and sets the flag), whatever the record held; a
  timer event lowers \<open>io_remaining\<close> by exactly 1 for a record that is IO-active with a
  positive value and leaves it alone otherwise; an IO end for a known id stores 0 (and
  clears the flag).
\<close>

theorem io_remaining_invariant:
  "(\<forall>(k, s) \<in> set (apply_events events []). 0 \<le> io_remaining s) \<and>
   ((\<forall>(k, s) \<in> set tbl. 0 \<le> io_remaining s) \<longrightarrow>
      (\<forall>(k, s) \<in> set (apply_events events tbl). 0 \<le> io_remaining s)) \<and>
   (etype e = kIoRequest \<and> map_of tbl (taskId (etask e)) = Some s \<longrightarrow>
      map_of (apply_event e tbl) (taskId (etask e)) =
        Some (s\<lparr>is_io_active := True, io_remaining := 10\<rparr>)) \<and>
   (etype e = kTimer \<and> map_of tbl k = Some s \<longrightarrow>
      (\<exists>s'. map_of (apply_event e tbl) k = Some s' \<and>
         io_remaining s' =
           (if is_io_active s \<and> 0 < io_remaining s then io_remaining s - 1
            else io_remaining s))) \<and>
   (etype e = kIoEnd \<and> map_of tbl (taskId (etask e)) = Some s \<longrightarrow>
      map_of (apply_event e tbl) (taskId (etask e)) =
        Some (s\<lparr>is_io_active := False, io_remaining := 0\<rparr>))"
proof -
  have a: "\<forall>(k, s) \<in> set (apply_events events []). 0 \<le> io_remaining s"
    by (rule io_nonneg_apply_events) simp
  have b: "(\<forall>(k, s) \<in> set tbl. 0 \<le> io_remaining s) \<longrightarrow>
      (\<forall>(k, s) \<in> set (apply_events events tbl). 0 \<le> io_remaining s)"
    by (rule impI) (rule io_nonneg_apply_events)
  have c: "etype e = kIoRequest \<and> map_of tbl (taskId (etask e)) = Some s \<longrightarrow>
      map_of (apply_event e tbl) (taskId (etask e)) =
        Some (s\<lparr>is_io_active := True, io_remaining := 10\<rparr>)"
    by (simp add: map_of_apply_event)
  have d: "etype e = kTimer \<and> map_of tbl k = Some s \<longrightarrow>
      (\<exists>s'. map_of (apply_event e tbl) k = Some s' \<and>
         io_remaining s' =
           (if is_io_active s \<and> 0 < io_remaining s then io_remaining s - 1
            else io_remaining s))"
    by (simp add: map_of_apply_event io_tick_def)
  have e: "etype e = kIoEnd \<and> map_of tbl (taskId (etask e)) = Some s \<longrightarrow>
      map_of (apply_event e tbl) (taskId (etask e)) =
        Some (s\<lparr>is_io_active := False, io_remaining := 0\<rparr>)"
    by (simp add: map_of_apply_event)
  show ?thesis by (intro conjI a b c d e)
qed

text \<open>
  An instance: arrival, IO request and one timer tick leave \<open>io_remaining = 9\<close>.
\<close>

theorem io_remaining_invariant_witness:
  "list_all (\<lambda>(k, s). 0 \<le> io_remaining s)
     (apply_events
        [\<lparr>etype = kTaskArrival, time = 0, etask = \<lparr>taskId = 1, deadline = 20, priority = kLow\<rparr>\<rparr>,
         \<lparr>etype = kIoRequest, time = 1, etask = \<lparr>taskId = 1, deadline = 20, priority = kLow\<rparr>\<rparr>,
         \<lparr>etype = kTimer, time = 2, etask = \<lparr>taskId = 0, deadline = 0, priority = kLow\<rparr>\<rparr>] []) \<and>
   apply_events
        [\<lparr>etype = kTaskArrival, time = 0, etask = \<lparr>taskId = 1, deadline = 20, priority = kLow\<rparr>\<rparr>,
         \<lparr>etype = kIoRequest, time = 1, etask = \<lparr>taskId = 1, deadline = 20, priority = kLow\<rparr>\<rparr>,
         \<lparr>etype = kTimer, time = 2, etask = \<lparr>taskId = 0, deadline = 0, priority = kLow\<rparr>\<rparr>] [] =
     [(1, \<lparr>task = \<lparr>taskId = 1, deadline = 20, priority = kLow\<rparr>, is_io_active = True,
           remaining_time = 20, slack_time = 20, io_remaining = 9, urgency_level = 0\<rparr>)]"
proof -
  let ?evs = "[\<lparr>etype = kTaskArrival, time = 0, etask = \<lparr>taskId = 1, deadline = 20, priority = kLow\<rparr>\<rparr>,
         \<lparr>etype = kIoRequest, time = 1, etask = \<lparr>taskId = 1, deadline = 20, priority = kLow\<rparr>\<rparr>,
         \<lparr>etype = kTimer, time = 2, etask = \<lparr>taskId = 0, deadline = 0, priority = kLow\<rparr>\<rparr>]"
  have "\<forall>(k, s) \<in> set (apply_events ?evs []). 0 \<le> io_remaining s"
    using io_remaining_invariant [of ?evs] by (rule conjunct1)
  then have "list_all (\<lambda>(k, s). 0 \<le> io_remaining s) (apply_events ?evs [])"
    unfolding list_all_iff .
  moreover have "apply_events ?evs [] =
     [(1, \<lparr>task = \<lparr>taskId = 1, deadline = 20, priority = kLow\<rparr>, is_io_active = True,
           remaining_time = 20, slack_time = 20, io_remaining = 9, urgency_level = 0\<rparr>)]"
    by (simp add: apply_event_def arrival_state_def sub32_def wrap32_def update_task_states_def update_state_def sub32_def wrap32_def
        io_tick_def)
  ultimately show ?thesis by (rule conjI)
qed

section \<open>The decision on an empty table\<close>

text \<open>
  C6, as the claim words it, fails: when the batch leaves the table empty and the caller
  passes a non-zero \<open>current_io\<close>, the returned \<open>ioTask\<close> is that id, not 0. Here task
  5 is on the IO device and finishes in this batch.
\<close>

theorem idle_on_empty_table_counterexample:
  "snd (policy
     [\<lparr>etype = kTaskFinish, time = 4, etask = \<lparr>taskId = 5, deadline = 20, priority = kLow\<rparr>\<rparr>]
     0 5
     [(5, \<lparr>task = \<lparr>taskId = 5, deadline = 20, priority = kLow\<rparr>, is_io_active = True,
           remaining_time = 20, slack_time = 20, io_remaining = 7, urgency_level = 0\<rparr>)]) = [] \<and>
   ioTask (fst (policy
     [\<lparr>etype = kTaskFinish, time = 4, etask = \<lparr>taskId = 5, deadline = 20, priority = kLow\<rparr>\<rparr>]
     0 5
     [(5, \<lparr>task = \<lparr>taskId = 5, deadline = 20, priority = kLow\<rparr>, is_io_active = True,
           remaining_time = 20, slack_time = 20, io_remaining = 7, urgency_level = 0\<rparr>)])) = 5"
  by (simp add: policy_def policy_with_def apply_event_def)

text \<open>
  C6, amended. When the batch leaves the table empty, \<open>cpuTask\<close> is 0 and \<open>ioTask\<close>
  is \<open>current_io\<close>: 0 when the device is free, the echoed id when it is busy.
\<close>

theorem idle_on_empty_table:
  assumes "std_sort srt" and "apply_events events tbl = []"
  shows "cpuTask (fst (policy_with srt events current_cpu current_io tbl)) = 0 \<and>
         ioTask (fst (policy_with srt events current_cpu current_io tbl)) = current_io \<and>
         (current_io = 0 \<longrightarrow>
            ioTask (fst (policy_with srt events current_cpu current_io tbl)) = 0)"
proof -
  have "first_id (srt (compare_priority_urgency []) []) = 0"
    using first_id_sorted_empty [OF assms(1) strict_weak_cpu] .
  moreover have "first_id (srt (compare_io []) []) = 0"
    using first_id_sorted_empty [OF assms(1) strict_weak_io] .
  ultimately show ?thesis
    using assms(2) by (simp add: policy_with_def Let_def ready_tasks_def io_tasks_def)
qed

text \<open>
  An instance: a task arrives and finishes in the same batch, the device being free.
\<close>

theorem idle_on_empty_table_witness:
  "std_sort insertion_sort \<and>
   apply_events
     [\<lparr>etype = kTaskArrival, time = 0, etask = \<lparr>taskId = 1, deadline = 20, priority = kLow\<rparr>\<rparr>,
      \<lparr>etype = kTaskFinish, time = 3, etask = \<lparr>taskId = 1, deadline = 20, priority = kLow\<rparr>\<rparr>] [] = [] \<and>
   fst (policy_with insertion_sort
     [\<lparr>etype = kTaskArrival, time = 0, etask = \<lparr>taskId = 1, deadline = 20, priority = kLow\<rparr>\<rparr>,
      \<lparr>etype = kTaskFinish, time = 3, etask = \<lparr>taskId = 1, deadline = 20, priority = kLow\<rparr>\<rparr>]
     0 0 []) = \<lparr>cpuTask = 0, ioTask = 0\<rparr>"
proof -
  let ?evs = "[\<lparr>etype = kTaskArrival, time = 0, etask = \<lparr>taskId = 1, deadline = 20, priority = kLow\<rparr>\<rparr>,
      \<lparr>etype = kTaskFinish, time = 3, etask = \<lparr>taskId = 1, deadline = 20, priority = kLow\<rparr>\<rparr>]"
  have e: "apply_events ?evs [] = []"
    by (simp add: apply_event_def)
  from idle_on_empty_table [OF std_sort_insertion_sort e, of 0 0]
  have "fst (policy_with insertion_sort ?evs 0 0 []) = \<lparr>cpuTask = 0, ioTask = 0\<rparr>"
    by simp
  with e std_sort_insertion_sort show ?thesis by simp
qed

section \<open>One task on both resources\<close>

text \<open>
  C7, as the claim words it, fails: with a busy device the echoed \<open>current_io\<close> is not
  compared with the chosen CPU task. Here task 1 is ready and is also the id the caller
  passes as \<open>current_io\<close>; the decision names it for both resources.
\<close>

theorem both_resources_counterexample:
  "cpuTask (fst (policy
     [\<lparr>etype = kTaskArrival, time = 0, etask = \<lparr>taskId = 1, deadline = 20, priority = kLow\<rparr>\<rparr>]
     0 1 [])) = 1 \<and>
   ioTask (fst (policy
     [\<lparr>etype = kTaskArrival, time = 0, etask = \<lparr>taskId = 1, deadline = 20, priority = kLow\<rparr>\<rparr>]
     0 1 [])) = 1"
  by (simp add: policy_def policy_with_def apply_event_def arrival_state_def sub32_def wrap32_def ready_tasks_def
      first_id_def)

text \<open>
  C7, amended. A decision names the same non-zero id for both resources only when the
  device is busy and the echoed \<open>current_io\<close> is the id of a record that is not IO-active
  after the batch. So the decision never names one non-zero id for both when the device
  is free, when \<open>current_io\<close> has no record after the batch, or when its record is
  IO-active. With a free device the decision also never names the caller's non-zero
  \<open>current_cpu\<close> for the device.
\<close>

theorem both_resources_guard:
  assumes "std_sort srt" and "table_ok tbl"
    and "tbl' = apply_events events tbl"
    and "a = fst (policy_with srt events current_cpu current_io tbl)"
  shows
    "(cpuTask a = ioTask a \<and> cpuTask a \<noteq> 0 \<longrightarrow>
        current_io \<noteq> 0 \<and> ioTask a = current_io \<and>
        (\<exists>s. map_of tbl' current_io = Some s \<and> \<not> is_io_active s)) \<and>
     (current_io = 0 \<or> map_of tbl' current_io = None \<or>
        (\<exists>s. map_of tbl' current_io = Some s \<and> is_io_active s) \<longrightarrow>
        \<not> (cpuTask a = ioTask a \<and> cpuTask a \<noteq> 0)) \<and>
     (current_io = 0 \<longrightarrow> \<not> (ioTask a = current_cpu \<and> ioTask a \<noteq> 0))"
proof -
  have ok: "table_ok tbl'"
    using assms(2,3) by (simp add: table_ok_apply_events)
  have cpu: "cpuTask a = first_id (srt (compare_priority_urgency tbl')
       (map (\<lambda>(k, s). task s) (filter (\<lambda>(k, s). \<not> is_io_active s) tbl')))"
    using assms(3,4) by (simp add: policy_with_def Let_def ready_tasks_def)
  have c: "cpuTask a = 0 \<or> (\<exists>s. (cpuTask a, s) \<in> set tbl' \<and> \<not> is_io_active s)"
    by (rule select_member [where P = "\<lambda>k s. \<not> is_io_active s",
          OF assms(1) ok strict_weak_cpu cpu])
  have i: "ioTask a = 0 \<or>
       (\<exists>s. (ioTask a, s) \<in> set tbl' \<and> is_io_active s \<and> ioTask a \<noteq> current_cpu)"
    if "current_io = 0"
  proof -
    have io: "ioTask a = first_id (srt (compare_io tbl')
       (map (\<lambda>(k, s). task s)
          (filter (\<lambda>(k, s). is_io_active s \<and> k \<noteq> current_cpu) tbl')))"
      using that assms(3,4) by (simp add: policy_with_def Let_def io_tasks_def)
    show ?thesis
      by (rule select_member [where P = "\<lambda>k s. is_io_active s \<and> k \<noteq> current_cpu",
            OF assms(1) ok strict_weak_io io])
  qed
  have echo: "ioTask a = current_io" if "current_io \<noteq> 0"
    using that assms(4) by (simp add: policy_with_def Let_def)
  have look: "(k, s) \<in> set tbl' \<longleftrightarrow> map_of tbl' k = Some s" for k s
    using ok by (rule member_iff_map_of)
  have free: "\<not> (cpuTask a = ioTask a \<and> cpuTask a \<noteq> 0)" if "current_io = 0"
  proof
    assume eq: "cpuTask a = ioTask a \<and> cpuTask a \<noteq> 0"
    with c i [OF that] obtain s s' where "map_of tbl' (cpuTask a) = Some s" "\<not> is_io_active s"
      "map_of tbl' (cpuTask a) = Some s'" "is_io_active s'"
      by (auto simp: look)
    then show False by simp
  qed
  have main: "current_io \<noteq> 0 \<and> ioTask a = current_io \<and>
        (\<exists>s. map_of tbl' current_io = Some s \<and> \<not> is_io_active s)"
    if eq: "cpuTask a = ioTask a \<and> cpuTask a \<noteq> 0"
  proof -
    from eq free have busy: "current_io \<noteq> 0" by blast
    with echo have e: "ioTask a = current_io" by simp
    from c eq e obtain s where "map_of tbl' current_io = Some s" "\<not> is_io_active s"
      by (auto simp: look)
    with busy e show ?thesis by blast
  qed
  have second: "\<not> (cpuTask a = ioTask a \<and> cpuTask a \<noteq> 0)"
    if "current_io = 0 \<or> map_of tbl' current_io = None \<or>
        (\<exists>s. map_of tbl' current_io = Some s \<and> is_io_active s)"
  proof
    assume "cpuTask a = ioTask a \<and> cpuTask a \<noteq> 0"
    from main [OF this] that show False by auto
  qed
  have third: "\<not> (ioTask a = current_cpu \<and> ioTask a \<noteq> 0)" if "current_io = 0"
    using i [OF that] by blast
  show ?thesis
    using main second third by blast
qed

text \<open>
  An instance with a busy device: task 1 is on the device and IO-active, task 2 is
  ready; the decision is CPU 2, IO 1.
\<close>

theorem both_resources_guard_witness:
  "std_sort insertion_sort \<and> table_ok [] \<and>
   (\<exists>s. map_of (apply_events
     [\<lparr>etype = kTaskArrival, time = 0, etask = \<lparr>taskId = 1, deadline = 20, priority = kLow\<rparr>\<rparr>,
      \<lparr>etype = kTaskArrival, time = 0, etask = \<lparr>taskId = 2, deadline = 30, priority = kLow\<rparr>\<rparr>,
      \<lparr>etype = kIoRequest, time = 1, etask = \<lparr>taskId = 1, deadline = 20, priority = kLow\<rparr>\<rparr>] []) 1
        = Some s \<and> is_io_active s) \<and>
   \<not> (cpuTask (fst (policy_with insertion_sort
     [\<lparr>etype = kTaskArrival, time = 0, etask = \<lparr>taskId = 1, deadline = 20, priority = kLow\<rparr>\<rparr>,
      \<lparr>etype = kTaskArrival, time = 0, etask = \<lparr>taskId = 2, deadline = 30, priority = kLow\<rparr>\<rparr>,
      \<lparr>etype = kIoRequest, time = 1, etask = \<lparr>taskId = 1, deadline = 20, priority = kLow\<rparr>\<rparr>]
     2 1 [])) =
      ioTask (fst (policy_with insertion_sort
     [\<lparr>etype = kTaskArrival, time = 0, etask = \<lparr>taskId = 1, deadline = 20, priority = kLow\<rparr>\<rparr>,
      \<lparr>etype = kTaskArrival, time = 0, etask = \<lparr>taskId = 2, deadline = 30, priority = kLow\<rparr>\<rparr>,
      \<lparr>etype = kIoRequest, time = 1, etask = \<lparr>taskId = 1, deadline = 20, priority = kLow\<rparr>\<rparr>]
     2 1 [])) \<and>
      cpuTask (fst (policy_with insertion_sort
     [\<lparr>etype = kTaskArrival, time = 0, etask = \<lparr>taskId = 1, deadline = 20, priority = kLow\<rparr>\<rparr>,
      \<lparr>etype = kTaskArrival, time = 0, etask = \<lparr>taskId = 2, deadline = 30, priority = kLow\<rparr>\<rparr>,
      \<lparr>etype = kIoRequest, time = 1, etask = \<lparr>taskId = 1, deadline = 20, priority = kLow\<rparr>\<rparr>]
     2 1 [])) \<noteq> 0) \<and>
   fst (policy_with insertion_sort
     [\<lparr>etype = kTaskArrival, time = 0, etask = \<lparr>taskId = 1, deadline = 20, priority = kLow\<rparr>\<rparr>,
      \<lparr>etype = kTaskArrival, time = 0, etask = \<lparr>taskId = 2, deadline = 30, priority = kLow\<rparr>\<rparr>,
      \<lparr>etype = kIoRequest, time = 1, etask = \<lparr>taskId = 1, deadline = 20, priority = kLow\<rparr>\<rparr>]
     2 1 []) = \<lparr>cpuTask = 2, ioTask = 1\<rparr>"
proof -
  let ?evs = "[\<lparr>etype = kTaskArrival, time = 0, etask = \<lparr>taskId = 1, deadline = 20, priority = kLow\<rparr>\<rparr>,
      \<lparr>etype = kTaskArrival, time = 0, etask = \<lparr>taskId = 2, deadline = 30, priority = kLow\<rparr>\<rparr>,
      \<lparr>etype = kIoRequest, time = 1, etask = \<lparr>taskId = 1, deadline = 20, priority = kLow\<rparr>\<rparr>]"
  let ?a = "fst (policy_with insertion_sort ?evs 2 1 [])"
  have rec: "\<exists>s. map_of (apply_events ?evs []) 1 = Some s \<and> is_io_active s"
    by (simp add: apply_event_def arrival_state_def)
  have a: "?a = \<lparr>cpuTask = 2, ioTask = 1\<rparr>"
    by (simp add: policy_with_def apply_event_def arrival_state_def sub32_def wrap32_def
        ready_tasks_def first_id_def)
  have "\<not> (cpuTask ?a = ioTask ?a \<and> cpuTask ?a \<noteq> 0)"
    using both_resources_guard [OF std_sort_insertion_sort table_ok_Nil refl refl,
        where events = ?evs and current_cpu = 2 and current_io = 1] rec
    by blast
  with a rec std_sort_insertion_sort table_ok_Nil show ?thesis by blast
qed

section \<open>Events for unknown ids\<close>

text \<open>
  C8. An IO request, an IO end or a finish event whose task id has no record leaves the
  table as it is. The model has no error value because the code has no failing path:
  \<^verbatim>\<open>policy\<close> yields an action and the table after the batch for every input, and both
  comparators are strict weak orderings on every table, as \<^verbatim>\<open>std::sort\<close> requires.
\<close>

theorem unknown_id_tolerance:
  "(map_of tbl (taskId (etask e)) = None \<and>
      (etype e = kIoRequest \<or> etype e = kIoEnd \<or> etype e = kTaskFinish)
      \<longrightarrow> apply_event e tbl = tbl) \<and>
   (\<exists>a tbl'. policy_with srt events current_cpu current_io tbl = (a, tbl') \<and>
      tbl' = apply_events events tbl) \<and>
   strict_weak (compare_priority_urgency (apply_events events tbl)) \<and>
   strict_weak (compare_io (apply_events events tbl))"
proof -
  have "apply_event e tbl = tbl"
    if "map_of tbl (taskId (etask e)) = None"
      "etype e = kIoRequest \<or> etype e = kIoEnd \<or> etype e = kTaskFinish"
  proof -
    from that(1) have "taskId (etask e) \<notin> fst ` set tbl"
      by (simp add: map_of_eq_None_iff)
    then have "AList.delete (taskId (etask e)) tbl = tbl"
      by (rule delete_id)
    with that show ?thesis
      by (auto simp: apply_event_def)
  qed
  moreover have "\<exists>a tbl'. policy_with srt events current_cpu current_io tbl = (a, tbl') \<and>
      tbl' = apply_events events tbl"
    by (simp add: policy_with_def Let_def)
  ultimately show ?thesis
    using strict_weak_cpu strict_weak_io by blast
qed

text \<open>
  An instance: an IO request for id 9 on a table that holds only id 1.
\<close>

theorem unknown_id_tolerance_witness:
  "map_of [(1, \<lparr>task = \<lparr>taskId = 1, deadline = 20, priority = kLow\<rparr>, is_io_active = False,
           remaining_time = 20, slack_time = 20, io_remaining = 0, urgency_level = 0\<rparr>)]
     (taskId (etask \<lparr>etype = kIoRequest, time = 2,
        etask = \<lparr>taskId = 9, deadline = 40, priority = kHigh\<rparr>\<rparr>)) = None \<and>
   apply_event \<lparr>etype = kIoRequest, time = 2, etask = \<lparr>taskId = 9, deadline = 40, priority = kHigh\<rparr>\<rparr>
     [(1, \<lparr>task = \<lparr>taskId = 1, deadline = 20, priority = kLow\<rparr>, is_io_active = False,
           remaining_time = 20, slack_time = 20, io_remaining = 0, urgency_level = 0\<rparr>)] =
     [(1, \<lparr>task = \<lparr>taskId = 1, deadline = 20, priority = kLow\<rparr>, is_io_active = False,
           remaining_time = 20, slack_time = 20, io_remaining = 0, urgency_level = 0\<rparr>)]"
proof -
  let ?e = "\<lparr>etype = kIoRequest, time = 2, etask = \<lparr>taskId = 9, deadline = 40, priority = kHigh\<rparr>\<rparr>"
  let ?tbl = "[(1, \<lparr>task = \<lparr>taskId = 1, deadline = 20, priority = kLow\<rparr>, is_io_active = False,
           remaining_time = 20, slack_time = 20, io_remaining = 0, urgency_level = 0\<rparr>)]"
  have n: "map_of ?tbl (taskId (etask ?e)) = None" by simp
  have t: "etype ?e = kIoRequest" by simp
  from unknown_id_tolerance [of ?tbl ?e insertion_sort "[]" 0 0] n t
  have "apply_event ?e ?tbl = ?tbl" by blast
  with n show ?thesis by blast
qed

section \<open>The remaining time of a record\<close>

text \<open>
  C9. An arrival at time \<open>t\<close> of a task with deadline \<open>d\<close> stores under the task's id
  the record with \<open>remaining_time = slack_time =\<close> the 32-bit difference \<open>d - t\<close> (the
  mathematical \<open>d - t\<close> whenever that fits into 32 bits), the flag false,
  \<open>io_remaining = 0\<close> and \<open>urgency_level = 0\<close>, whatever was stored there before; the
  other keys keep their records and the keys stay distinct. As long as no later event is
  an arrival or a finish for that id, the record stays in the table with the same
  \<open>remaining_time\<close> and the same task snapshot.
\<close>

theorem remaining_time_frozen:
  "(etype e = kTaskArrival \<longrightarrow>
      map_of (apply_event e tbl) (taskId (etask e)) =
        Some \<lparr>task = etask e, is_io_active = False,
              remaining_time = wrap32 (deadline (etask e) - time e),
              slack_time = wrap32 (deadline (etask e) - time e),
              io_remaining = 0, urgency_level = 0\<rparr> \<and>
      (in_range32 (deadline (etask e) - time e) \<longrightarrow>
         map_of (apply_event e tbl) (taskId (etask e)) =
           Some \<lparr>task = etask e, is_io_active = False,
                 remaining_time = deadline (etask e) - time e,
                 slack_time = deadline (etask e) - time e,
                 io_remaining = 0, urgency_level = 0\<rparr>) \<and>
      (\<forall>k. k \<noteq> taskId (etask e) \<longrightarrow> map_of (apply_event e tbl) k = map_of tbl k) \<and>
      (distinct (map fst tbl) \<longrightarrow> distinct (map fst (apply_event e tbl)))) \<and>
   (map_of tbl k = Some s \<and>
    (\<forall>e \<in> set events.
       (etype e = kTaskArrival \<or> etype e = kTaskFinish) \<longrightarrow> taskId (etask e) \<noteq> k)
    \<longrightarrow> (\<exists>s'. map_of (apply_events events tbl) k = Some s' \<and>
           remaining_time s' = remaining_time s \<and> task s' = task s))"
proof -
  have a: "map_of (apply_event e tbl) (taskId (etask e)) =
        Some \<lparr>task = etask e, is_io_active = False,
              remaining_time = wrap32 (deadline (etask e) - time e),
              slack_time = wrap32 (deadline (etask e) - time e),
              io_remaining = 0, urgency_level = 0\<rparr>"
    and b: "\<forall>k. k \<noteq> taskId (etask e) \<longrightarrow> map_of (apply_event e tbl) k = map_of tbl k"
    if "etype e = kTaskArrival"
    using that by (simp_all add: map_of_apply_event arrival_state_def sub32_def)
  have a': "map_of (apply_event e tbl) (taskId (etask e)) =
           Some \<lparr>task = etask e, is_io_active = False,
                 remaining_time = deadline (etask e) - time e,
                 slack_time = deadline (etask e) - time e,
                 io_remaining = 0, urgency_level = 0\<rparr>"
    if "etype e = kTaskArrival" "in_range32 (deadline (etask e) - time e)"
    using a [OF that(1)] wrap32_id [OF that(2)] by simp
  have c: "distinct (map fst tbl) \<longrightarrow> distinct (map fst (apply_event e tbl))"
    by (simp add: distinct_apply_event)
  have d: "\<exists>s'. map_of (apply_events events tbl) k = Some s' \<and>
           remaining_time s' = remaining_time s \<and> task s' = task s"
    if "map_of tbl k = Some s \<and>
    (\<forall>e \<in> set events.
       (etype e = kTaskArrival \<or> etype e = kTaskFinish) \<longrightarrow> taskId (etask e) \<noteq> k)"
    using that frozen_steps [of tbl k s events] by blast
  show ?thesis
    using a a' b c d by (intro conjI impI) blast+
qed

text \<open>
  An instance: after the arrival at \<open>t = 3\<close> with deadline 20, three timer ticks with
  an IO request and an IO end in between leave \<open>remaining_time = 17\<close>.
\<close>

theorem remaining_time_frozen_witness:
  "map_of (apply_event
      \<lparr>etype = kTaskArrival, time = 3, etask = \<lparr>taskId = 1, deadline = 20, priority = kLow\<rparr>\<rparr> []) 1 =
     Some \<lparr>task = \<lparr>taskId = 1, deadline = 20, priority = kLow\<rparr>, is_io_active = False,
           remaining_time = 17, slack_time = 17, io_remaining = 0, urgency_level = 0\<rparr> \<and>
   (\<exists>s'. map_of (apply_events
        [\<lparr>etype = kTimer, time = 4, etask = \<lparr>taskId = 0, deadline = 0, priority = kLow\<rparr>\<rparr>,
         \<lparr>etype = kIoRequest, time = 4, etask = \<lparr>taskId = 1, deadline = 20, priority = kLow\<rparr>\<rparr>,
         \<lparr>etype = kTimer, time = 5, etask = \<lparr>taskId = 0, deadline = 0, priority = kLow\<rparr>\<rparr>,
         \<lparr>etype = kIoEnd, time = 5, etask = \<lparr>taskId = 1, deadline = 20, priority = kLow\<rparr>\<rparr>,
         \<lparr>etype = kTimer, time = 6, etask = \<lparr>taskId = 0, deadline = 0, priority = kLow\<rparr>\<rparr>]
        (apply_event
          \<lparr>etype = kTaskArrival, time = 3, etask = \<lparr>taskId = 1, deadline = 20, priority = kLow\<rparr>\<rparr> []))
        1 = Some s' \<and> remaining_time s' = 17)"
proof -
  let ?e = "\<lparr>etype = kTaskArrival, time = 3, etask = \<lparr>taskId = 1, deadline = 20, priority = kLow\<rparr>\<rparr>"
  let ?s = "\<lparr>task = \<lparr>taskId = 1, deadline = 20, priority = kLow\<rparr>, is_io_active = False,
           remaining_time = 17, slack_time = 17, io_remaining = 0, urgency_level = 0\<rparr>"
  let ?evs = "[\<lparr>etype = kTimer, time = 4, etask = \<lparr>taskId = 0, deadline = 0, priority = kLow\<rparr>\<rparr>,
         \<lparr>etype = kIoRequest, time = 4, etask = \<lparr>taskId = 1, deadline = 20, priority = kLow\<rparr>\<rparr>,
         \<lparr>etype = kTimer, time = 5, etask = \<lparr>taskId = 0, deadline = 0, priority = kLow\<rparr>\<rparr>,
         \<lparr>etype = kIoEnd, time = 5, etask = \<lparr>taskId = 1, deadline = 20, priority = kLow\<rparr>\<rparr>,
         \<lparr>etype = kTimer, time = 6, etask = \<lparr>taskId = 0, deadline = 0, priority = kLow\<rparr>\<rparr>]"
  note th = remaining_time_frozen
    [where tbl = "apply_event ?e []" and k = 1 and s = ?s and events = ?evs]
  have t: "etype ?e = kTaskArrival" by simp
  have r: "in_range32 (deadline (etask ?e) - time ?e)" by (simp add: in_range32_def)
  from remaining_time_frozen [where e = ?e and tbl = "[]"] t r
  have "map_of (apply_event ?e []) (taskId (etask ?e)) =
           Some \<lparr>task = etask ?e, is_io_active = False,
                 remaining_time = deadline (etask ?e) - time ?e,
                 slack_time = deadline (etask ?e) - time ?e,
                 io_remaining = 0, urgency_level = 0\<rparr>"
    by blast
  then have arr: "map_of (apply_event ?e []) 1 = Some ?s"
    by simp
  have "\<forall>e \<in> set ?evs.
       (etype e = kTaskArrival \<or> etype e = kTaskFinish) \<longrightarrow> taskId (etask e) \<noteq> 1"
    by simp
  with arr th
  have "\<exists>s'. map_of (apply_events ?evs (apply_event ?e [])) 1 = Some s' \<and>
           remaining_time s' = remaining_time ?s \<and> task s' = task ?s"
    by blast
  then obtain s' where "map_of (apply_events ?evs (apply_event ?e [])) 1 = Some s'"
    "remaining_time s' = 17"
    by auto
  with arr show ?thesis by blast
qed

text \<open>
  Past the 32-bit range the stored remaining time is the wrapped difference: an arrival
  at \<open>t = -1\<close> with deadline 2147483647 stores \<open>-2147483648\<close>.
\<close>

lemma arrival_wraps_instance:
  "apply_event
     \<lparr>etype = kTaskArrival, time = - 1,
      etask = \<lparr>taskId = 1, deadline = 2147483647, priority = kLow\<rparr>\<rparr> [] =
     [(1, \<lparr>task = \<lparr>taskId = 1, deadline = 2147483647, priority = kLow\<rparr>, is_io_active = False,
           remaining_time = - 2147483648, slack_time = - 2147483648, io_remaining = 0,
           urgency_level = 0\<rparr>)]"
  by (simp add: apply_event_def arrival_state_def sub32_def wrap32_def)

section \<open>The echoed IO id is not looked up\<close>

text \<open>
  C10. There is an input with \<open>current_io \<noteq> 0\<close> for which \<^verbatim>\<open>policy\<close> returns
  \<open>ioTask = current_io\<close> although the table after the batch has no record for that id:
  task 1 arrives, requests IO and finishes, and the caller still passes 1 as
  \<open>current_io\<close>.
\<close>

theorem stale_io_echo:
  "\<exists>events current_cpu current_io.
     current_io \<noteq> 0 \<and>
     ioTask (fst (policy_with srt events current_cpu current_io [])) = current_io \<and>
     map_of (snd (policy_with srt events current_cpu current_io [])) current_io = None"
proof (intro exI conjI)
  let ?evs = "[\<lparr>etype = kTaskArrival, time = 0, etask = \<lparr>taskId = 1, deadline = 20, priority = kLow\<rparr>\<rparr>,
      \<lparr>etype = kIoRequest, time = 1, etask = \<lparr>taskId = 1, deadline = 20, priority = kLow\<rparr>\<rparr>,
      \<lparr>etype = kTaskFinish, time = 2, etask = \<lparr>taskId = 1, deadline = 20, priority = kLow\<rparr>\<rparr>]"
  show "(1::int) \<noteq> 0" by simp
  show "ioTask (fst (policy_with srt ?evs 0 1 [])) = 1"
    by (simp add: policy_with_def Let_def)
  show "map_of (snd (policy_with srt ?evs 0 1 [])) 1 = None"
    by (simp add: policy_with_def Let_def apply_event_def arrival_state_def sub32_def wrap32_def)
qed

end
